theory Spec2Isabelle
  imports Main "HOL-Library.Word" "HOL-Library.Sublist" "HOL-Library.AList" "HOL-Library.Multiset"
begin

section \<open>Download registry\<close>

text \<open>
  \<open>Client.getObject\<close> reports the progress of a download to the process-wide
  \<open>DownloadManager\<close> singleton through four calls: \<open>addNewDownload\<close>,
  \<open>setRunningState\<close>, \<open>setCompletedState\<close> and \<open>setErrorState\<close>, each keyed by the
  pair (object key, version id). The class itself lives in
  \<open>src/network/downloadManager.ts\<close>, which is not among the sources; only its caller is.
\<close>

text \<open>Modelled from the spec: the lifecycle states of a download record (section 3, DownloadRecord:
  \<open>state \<in> {QUEUED, RUNNING, COMPLETED, ERROR}\<close>); the enumeration of
  \<open>downloadManager.ts\<close> is missing.\<close>

datatype DownloadState = QUEUED | RUNNING | COMPLETED | ERROR

type_synonym download_id = "string \<times> string"

type_synonym registry = "download_id \<rightharpoonup> DownloadState"

text \<open>Modelled from the spec: \<open>DownloadManager.addNewDownload\<close> is missing. Section 4.4,
  registerAttempt: "creates a new record in state QUEUED. If a record for this identity
  already exists, this is a re-entrant no-op".\<close>

definition addNewDownload :: "string \<Rightarrow> string \<Rightarrow> registry \<Rightarrow> registry" where
  "addNewDownload objectKey versionId r =
     (case r (objectKey, versionId) of
        None \<Rightarrow> r((objectKey, versionId) \<mapsto> QUEUED)
      | Some _ \<Rightarrow> r)"

text \<open>Modelled from the spec: \<open>DownloadManager.setRunningState\<close> is missing. Section 4.4,
  markRunning: "transitions QUEUED \<rightarrow> RUNNING. No-op/benign if the record is already
  RUNNING"; COMPLETED and ERROR are terminal, and there is nothing to move when no record
  exists.\<close>

definition setRunningState :: "string \<Rightarrow> string \<Rightarrow> registry \<Rightarrow> registry" where
  "setRunningState objectKey versionId r =
     (case r (objectKey, versionId) of
        Some QUEUED \<Rightarrow> r((objectKey, versionId) \<mapsto> RUNNING)
      | _ \<Rightarrow> r)"

text \<open>Modelled from the spec: \<open>DownloadManager.setCompletedState\<close> is missing. Section 4.4,
  markCompleted: "transitions RUNNING \<rightarrow> COMPLETED"; section 8: after \<open>markError\<close>,
  "subsequent markCompleted calls do not revert it".\<close>

definition setCompletedState :: "string \<Rightarrow> string \<Rightarrow> registry \<Rightarrow> registry" where
  "setCompletedState objectKey versionId r =
     (case r (objectKey, versionId) of
        Some RUNNING \<Rightarrow> r((objectKey, versionId) \<mapsto> COMPLETED)
      | _ \<Rightarrow> r)"

text \<open>Modelled from the spec: \<open>DownloadManager.setErrorState\<close> is missing. Section 4.4,
  markError: "transitions any non-terminal state \<rightarrow> ERROR"; the non-terminal states are
  QUEUED and RUNNING.\<close>

definition setErrorState :: "string \<Rightarrow> string \<Rightarrow> registry \<Rightarrow> registry" where
  "setErrorState objectKey versionId r =
     (case r (objectKey, versionId) of
        Some QUEUED \<Rightarrow> r((objectKey, versionId) \<mapsto> ERROR)
      | Some RUNNING \<Rightarrow> r((objectKey, versionId) \<mapsto> ERROR)
      | _ \<Rightarrow> r)"

text \<open>Modelled from the spec: the read-only lookup of the missing \<open>DownloadManager\<close>
  (section 4.4, getState: "state | absent").\<close>

definition getState :: "string \<Rightarrow> string \<Rightarrow> registry \<Rightarrow> DownloadState option" where
  "getState objectKey versionId r = r (objectKey, versionId)"

section \<open>The world a client acts on\<close>

text \<open>
  The client has two effects outside itself: calls on the \<open>DownloadManager\<close> singleton
  and requests handed to the AWS SDK. Both are recorded, in the order in which the code
  performs them, in a trace; the registry is the singleton's state. Console output is
  not modelled.
\<close>

datatype dm_call =
    AddNewDownload string string
  | SetRunningState string string
  | SetCompletedState string string
  | SetErrorState string string

text \<open>A command carries its \<open>Bucket\<close> and its \<open>Prefix\<close> or \<open>Key\<close>, in this order.\<close>

datatype command =
    ListObjectVersionsCommand string string
  | GetObjectCommand string string

datatype event =
    Coordinator dm_call
  | Send command
  | GetSignedUrl command nat

record world =
  downloads :: registry
  trace :: "event list"

fun apply_call :: "dm_call \<Rightarrow> registry \<Rightarrow> registry" where
  "apply_call (AddNewDownload k v) r = addNewDownload k v r"
| "apply_call (SetRunningState k v) r = setRunningState k v r"
| "apply_call (SetCompletedState k v) r = setCompletedState k v r"
| "apply_call (SetErrorState k v) r = setErrorState k v r"

definition coordinator :: "dm_call \<Rightarrow> world \<Rightarrow> world" where
  "coordinator c w =
     w\<lparr>downloads := apply_call c (downloads w), trace := trace w @ [Coordinator c]\<rparr>"

definition record_event :: "event \<Rightarrow> world \<Rightarrow> world" where
  "record_event e w = w\<lparr>trace := trace w @ [e]\<rparr>"

section \<open>Data exchanged with the object store\<close>

text \<open>A JavaScript \<open>Error\<close> with its message; whatever the SDK throws is one as well.\<close>

datatype error = Error string

type_synonym bytes = "8 word list"

text \<open>
  The browser stream of a response body, seen through its reader: what the successive
  calls of \<open>reader.read()\<close> resolve to. \<open>Value\<close> is \<open>{done: false, value}\<close> followed by the
  rest of the stream, \<open>Done\<close> is \<open>{done: true}\<close>, and \<open>Failed\<close> is a read that rejects.
\<close>

datatype ReadableStream =
    Value bytes ReadableStream
  | Done
  | Failed error

record ObjectVersion =
  Key :: "string option"
  VersionId :: "string option"

record ListObjectVersionsCommandOutput =
  Versions :: "ObjectVersion list option"

record GetObjectCommandOutput =
  Body :: "ReadableStream option"

text \<open>
  An initialized \<open>S3Client\<close> is represented by the answers the object store gives
  through it: \<open>Inl\<close> is a rejected promise. \<open>presign\<close> is what \<open>getSignedUrl\<close> of
  \<open>@aws-sdk/s3-request-presigner\<close> yields for this client.
\<close>

record S3Client =
  sendListObjectVersions :: "command \<Rightarrow> error + ListObjectVersionsCommandOutput"
  sendGetObject :: "command \<Rightarrow> error + GetObjectCommandOutput"
  presign :: "command \<Rightarrow> nat \<Rightarrow> error + string"

record PluginSettings =
  bucketName :: string

text \<open>The constants of \<open>src/config.ts\<close>, which is not among the sources, are parameters.\<close>

record Config =
  S3_LINK_PREFIX :: string
  S3_SIGNED_LINK_PREFIX :: string
  S3_LINK_SPLITTER :: string
  S3_SIGNED_LINK_EXPIRATION_TIME_SECONDS :: nat

record Client =
  s3Client :: "S3Client option"
  settings :: PluginSettings

section \<open>Client\<close>

definition notInitialized :: error where
  "notInitialized = Error ''S3Client not initialized''"

definition getObjectMetadata ::
  "Client \<Rightarrow> string \<Rightarrow> world \<Rightarrow> (error + ListObjectVersionsCommandOutput) \<times> world" where
  "getObjectMetadata c objectKey w =
     (case s3Client c of
        None \<Rightarrow> (Inl notInitialized, w)
      | Some s3 \<Rightarrow>
          let command = ListObjectVersionsCommand (bucketName (settings c)) objectKey
          in (sendListObjectVersions s3 command, record_event (Send command) w))"

text \<open>
  \<open>response.Versions?.filter(...) || []\<close>: an array is truthy even when empty, so the
  right operand is taken exactly when \<open>Versions\<close> is undefined. Falling off the end of the
  function returns \<open>undefined\<close> (\<open>None\<close>); the \<open>catch\<close> block logs and rethrows.
\<close>

definition getLatestObjectVersion ::
  "Client \<Rightarrow> string \<Rightarrow> world \<Rightarrow> (error + string option) \<times> world" where
  "getLatestObjectVersion c objectKey w =
     (case getObjectMetadata c objectKey w of
        (Inl err, w') \<Rightarrow> (Inl err, w')
      | (Inr response, w') \<Rightarrow>
          let exactFilteredVersion =
                (case Versions response of
                   Some versions \<Rightarrow> filter (\<lambda>version. Key version = Some objectKey) versions
                 | None \<Rightarrow> [])
          in if length exactFilteredVersion > 0
             then (Inr (VersionId (exactFilteredVersion ! 0)), w')
             else (Inr None, w'))"

text \<open>
  A Node \<open>Readable\<close> as \<open>getObject\<close> hands it out: the reader it pulls from and the
  listeners registered on it with \<open>stream.on\<close>, each an event name with the coordinator
  call its callback makes.
\<close>

record Readable =
  reader :: ReadableStream
  listeners :: "(string \<times> dm_call) list"

definition browserStreamToReadable :: "ReadableStream \<Rightarrow> Readable" where
  "browserStreamToReadable browserStream = \<lparr>reader = browserStream, listeners = []\<rparr>"

definition on_event :: "string \<Rightarrow> dm_call \<Rightarrow> Readable \<Rightarrow> Readable" where
  "on_event name callback stream = stream\<lparr>listeners := listeners stream @ [(name, callback)]\<rparr>"

definition getObject ::
  "Client \<Rightarrow> string \<Rightarrow> string \<Rightarrow> world \<Rightarrow> (error + Readable) \<times> world" where
  "getObject c objectKey versionId w =
     (case s3Client c of
        None \<Rightarrow> (Inl notInitialized, w)
      | Some s3 \<Rightarrow>
          let w1 = coordinator (AddNewDownload objectKey versionId) w;
              command = GetObjectCommand (bucketName (settings c)) objectKey;
              w2 = record_event (Send command) w1
          in (case sendGetObject s3 command of
                Inl err \<Rightarrow> (Inl err, coordinator (SetErrorState objectKey versionId) w2)
              | Inr response \<Rightarrow>
                  (case Body response of
                     Some body \<Rightarrow>
                       let w3 = coordinator (SetRunningState objectKey versionId) w2;
                           stream = browserStreamToReadable body
                       in (Inr (on_event ''end'' (SetCompletedState objectKey versionId) stream), w3)
                   | None \<Rightarrow>
                       (Inl (Error (''Failed to retrieve object '' @ objectKey @ '' from S3'')),
                        coordinator (SetErrorState objectKey versionId) w2))))"

definition getSignedUrlForObject ::
  "Config \<Rightarrow> Client \<Rightarrow> string \<Rightarrow> world \<Rightarrow> (error + string) \<times> world" where
  "getSignedUrlForObject cfg c objectKey w =
     (case s3Client c of
        None \<Rightarrow> (Inl notInitialized, w)
      | Some s3 \<Rightarrow>
          let command = GetObjectCommand (bucketName (settings c)) objectKey;
              expiresIn = S3_SIGNED_LINK_EXPIRATION_TIME_SECONDS cfg
          in (presign s3 command expiresIn, record_event (GetSignedUrl command expiresIn) w))"

section \<open>Draining a returned stream\<close>

text \<open>
  One call of the \<open>read()\<close> that \<open>browserStreamToReadable\<close> installs: it awaits
  \<open>reader.read()\<close> and pushes \<open>null\<close> when the result is done, the chunk otherwise. There
  is no \<open>catch\<close>, so a rejected \<open>reader.read()\<close> rejects \<open>read()\<close>.
\<close>

datatype pushed = PushNull | PushChunk bytes

fun read :: "ReadableStream \<Rightarrow> error + pushed \<times> ReadableStream" where
  "read (Value v rest) = Inr (PushChunk v, rest)"
| "read Done = Inr (PushNull, Done)"
| "read (Failed err) = Inl err"

text \<open>Emitting an event runs the callbacks registered under its name, in order.\<close>

fun emit :: "(string \<times> dm_call) list \<Rightarrow> string \<Rightarrow> world \<Rightarrow> world" where
  "emit [] name w = w"
| "emit ((n, callback) # ls) name w =
     emit ls name (if n = name then coordinator callback w else w)"

text \<open>
  A consumer that reads the stream to its end: \<open>read()\<close> is called until it pushes \<open>null\<close>,
  upon which the stream emits \<open>end\<close>, or until it rejects. The result holds the outcome
  (on the left, the error of the rejected read), the chunks delivered, and the world
  afterwards. What the runtime does with a rejected \<open>read()\<close> is outside the sources; the
  model offers it to the listeners registered for \<open>error\<close>.
\<close>

function drain_from ::
  "(string \<times> dm_call) list \<Rightarrow> ReadableStream \<Rightarrow> world \<Rightarrow> (error + unit) \<times> bytes list \<times> world" where
  "drain_from ls s w =
     (case read s of
        Inl err \<Rightarrow> (Inl err, [], emit ls ''error'' w)
      | Inr (PushNull, rest) \<Rightarrow> (Inr (), [], emit ls ''end'' w)
      | Inr (PushChunk v, rest) \<Rightarrow>
          (case drain_from ls rest w of (outcome, chunks, w') \<Rightarrow> (outcome, v # chunks, w')))"
  by pat_completeness auto
termination
proof (relation "measure (\<lambda>(ls, s, w). size s)")
  show "wf (measure (\<lambda>(ls, s, w). size s))"
    by simp
next
  fix ls :: "(string \<times> dm_call) list" and s :: ReadableStream and w :: world
    and result p rest v
  assume "read s = Inr result" "(p, rest) = result" "p = PushChunk v"
  then show "((ls, rest, w), (ls, s, w)) \<in> measure (\<lambda>(ls, s, w). size s)"
    by (cases s) auto
qed

declare drain_from.simps [simp del]

definition drain :: "Readable \<Rightarrow> world \<Rightarrow> (error + unit) \<times> bytes list \<times> world" where
  "drain stream w = drain_from (listeners stream) (reader stream) w"

text \<open>Observers used to state the results: the coordinator calls in a trace, the chunks a
  browser stream holds, and the error it ends with, if any.\<close>

fun coordinator_calls :: "event list \<Rightarrow> dm_call list" where
  "coordinator_calls [] = []"
| "coordinator_calls (Coordinator c # es) = c # coordinator_calls es"
| "coordinator_calls (_ # es) = coordinator_calls es"

fun chunks_of :: "ReadableStream \<Rightarrow> bytes list" where
  "chunks_of (Value v rest) = v # chunks_of rest"
| "chunks_of Done = []"
| "chunks_of (Failed err) = []"

fun failure_of :: "ReadableStream \<Rightarrow> error option" where
  "failure_of (Value v rest) = failure_of rest"
| "failure_of Done = None"
| "failure_of (Failed err) = Some err"

section \<open>Rendered content\<close>

text \<open>
  The rendered markdown is a tree of elements. An element is referred to by its position,
  the child indices on the way down from the element handed to the resolver, so that two
  elements with the same tag and attributes remain two elements. \<open>src\<close> is the value of
  the element's \<open>src\<close> property.
\<close>

datatype HTMLElement =
  HTMLElement (localName: string) (src: string) (childNodes: "HTMLElement list")

type_synonym element_ref = "nat list \<times> HTMLElement"

fun subtree :: "nat list \<Rightarrow> HTMLElement \<Rightarrow> element_ref list"
  and forest :: "nat list \<Rightarrow> nat \<Rightarrow> HTMLElement list \<Rightarrow> element_ref list" where
  "subtree p (HTMLElement name s cs) = (p, HTMLElement name s cs) # forest p 0 cs"
| "forest p i [] = []"
| "forest p i (c # cs) = subtree (p @ [i]) c @ forest p (Suc i) cs"

text \<open>\<open>element.querySelectorAll\<close> for a type selector: the descendants of the element with
  that tag, in document order.\<close>

definition querySelectorAll :: "HTMLElement \<Rightarrow> string \<Rightarrow> element_ref list" where
  "querySelectorAll element selector =
     filter (\<lambda>e. localName (snd e) = selector) (forest [] 0 (childNodes element))"

section \<open>Strings and arrays of JavaScript\<close>

text \<open>
  \<open>String.prototype.split\<close> with a string separator and no limit: the pieces between the
  occurrences of the separator, found from left to right without overlap; an empty
  separator splits into single characters, and the empty string then gives no piece.
\<close>

function splitParts :: "string \<Rightarrow> string \<Rightarrow> string \<Rightarrow> string list" where
  "splitParts separator part [] = [part]"
| "splitParts separator part (c # cs) =
     (if separator \<noteq> [] \<and> prefix separator (c # cs)
      then part # splitParts separator [] (drop (length separator) (c # cs))
      else splitParts separator (part @ [c]) cs)"
  by pat_completeness auto
termination
  by (relation "measure (\<lambda>(separator, part, s). length s)") auto

definition js_split :: "string \<Rightarrow> string \<Rightarrow> string list" where
  "js_split s separator =
     (if separator = [] then map (\<lambda>c. [c]) s else splitParts separator [] s)"

text \<open>Indexing an array: \<open>undefined\<close> (\<open>None\<close>) out of range.\<close>

definition at :: "'a list \<Rightarrow> nat \<Rightarrow> 'a option" where
  "at xs i = (if i < length xs then Some (xs ! i) else None)"

section \<open>Image resolver\<close>

text \<open>
  \<open>ImageResolver\<close> extends \<open>Resolver\<close> (\<open>src/resolver/resolver.ts\<close>), which is not among
  the sources: the two maps, the two part indices and the methods that fill and clear
  the maps are inherited from it. A JavaScript \<open>Map\<close> keeps its keys in insertion order
  and is an association list here; a key is \<open>None\<close> when the code passes \<open>undefined\<close>.
\<close>

type_synonym key_map = "(string option \<times> element_ref list) list"

record Resolver =
  objectKeys :: key_map
  signObjectKeys :: key_map

text \<open>Modelled from the spec: the inherited index \<open>s3LinkLeftPart\<close> is missing. Section 4.1:
  "if the first part equals a configured direct marker".\<close>

definition s3LinkLeftPart :: nat where
  "s3LinkLeftPart = 0"

text \<open>Modelled from the spec: the inherited index \<open>s3LinkRightPart\<close> is missing. Section 4.1:
  "objectKey = second part".\<close>

definition s3LinkRightPart :: nat where
  "s3LinkRightPart = 1"

text \<open>Modelled from the spec: the insertion shared by the missing \<open>addObjectKey\<close> and
  \<open>addSignObjectKey\<close>. Section 4.2: "appends the element to the corresponding map's
  sequence for that key, creating the sequence if the key is new".\<close>

definition append_element :: "string option \<Rightarrow> element_ref \<Rightarrow> key_map \<Rightarrow> key_map" where
  "append_element key element m =
     (case map_of m key of
        Some elements \<Rightarrow> AList.update key (elements @ [element]) m
      | None \<Rightarrow> AList.update key [element] m)"

text \<open>Modelled from the spec: \<open>Resolver.addObjectKey\<close> is missing; it files the element in
  the direct map as section 4.2 says.\<close>

definition addObjectKey :: "string option \<Rightarrow> element_ref \<Rightarrow> Resolver \<Rightarrow> Resolver" where
  "addObjectKey key element r = r\<lparr>objectKeys := append_element key element (objectKeys r)\<rparr>"

text \<open>Modelled from the spec: \<open>Resolver.addSignObjectKey\<close> is missing; it files the element
  in the signed map as section 4.2 says.\<close>

definition addSignObjectKey :: "string option \<Rightarrow> element_ref \<Rightarrow> Resolver \<Rightarrow> Resolver" where
  "addSignObjectKey key element r =
     r\<lparr>signObjectKeys := append_element key element (signObjectKeys r)\<rparr>"

text \<open>Modelled from the spec: \<open>Resolver.clearObjectKeys\<close> is missing. Section 4.2: "clears
  any previously accumulated maps before each run".\<close>

definition clearObjectKeys :: "Resolver \<Rightarrow> Resolver" where
  "clearObjectKeys r = r\<lparr>objectKeys := []\<rparr>"

text \<open>Modelled from the spec: \<open>Resolver.clearSignObjectKeys\<close> is missing. Section 4.2:
  "clears any previously accumulated maps before each run".\<close>

definition clearSignObjectKeys :: "Resolver \<Rightarrow> Resolver" where
  "clearSignObjectKeys r = r\<lparr>signObjectKeys := []\<rparr>"

definition targetElement :: string where
  "targetElement = ''img''"

text \<open>The callback of \<open>imageElements.forEach\<close>. \<open>==\<close> between a part and a marker holds
  only for an existing part equal to the marker.\<close>

definition resolveImageElement :: "Config \<Rightarrow> element_ref \<Rightarrow> Resolver \<Rightarrow> Resolver" where
  "resolveImageElement cfg imageElement r =
     (let parts = js_split (src (snd imageElement)) (S3_LINK_SPLITTER cfg)
      in if at parts s3LinkLeftPart = Some (S3_LINK_PREFIX cfg)
         then addObjectKey (at parts s3LinkRightPart) imageElement r
         else if at parts s3LinkLeftPart = Some (S3_SIGNED_LINK_PREFIX cfg)
         then addSignObjectKey (at parts s3LinkRightPart) imageElement r
         else r)"

text \<open>
  The object returned holds the resolver's own two maps, so the resolver after the call
  is the result: \<open>objectKeys\<close> and \<open>signObjectKeys\<close> of it are the two maps handed back.
\<close>

definition resolveHtmlElement :: "Config \<Rightarrow> HTMLElement \<Rightarrow> Resolver \<Rightarrow> Resolver" where
  "resolveHtmlElement cfg element r =
     (let imageElements = querySelectorAll element targetElement;
          r1 = clearObjectKeys r;
          r2 = clearSignObjectKeys r1
      in if length imageElements = 0 then r2
         else fold (resolveImageElement cfg) imageElements r2)"

text \<open>The test the callback makes on an element, and the key it files the element under.\<close>

definition link_parts :: "Config \<Rightarrow> element_ref \<Rightarrow> string list" where
  "link_parts cfg e = js_split (src (snd e)) (S3_LINK_SPLITTER cfg)"

definition is_object_link :: "Config \<Rightarrow> element_ref \<Rightarrow> bool" where
  "is_object_link cfg e \<longleftrightarrow> at (link_parts cfg e) s3LinkLeftPart = Some (S3_LINK_PREFIX cfg)"

definition is_sign_link :: "Config \<Rightarrow> element_ref \<Rightarrow> bool" where
  "is_sign_link cfg e \<longleftrightarrow>
     \<not> is_object_link cfg e
     \<and> at (link_parts cfg e) s3LinkLeftPart = Some (S3_SIGNED_LINK_PREFIX cfg)"

definition link_key :: "Config \<Rightarrow> element_ref \<Rightarrow> string option" where
  "link_key cfg e = at (link_parts cfg e) s3LinkRightPart"

definition all_elements :: "key_map \<Rightarrow> element_ref list" where
  "all_elements m = concat (map snd m)"

section \<open>Example inputs\<close>

definition exampleSettings :: PluginSettings where
  "exampleSettings = \<lparr>bucketName = ''vault''\<rparr>"

definition exampleVersions :: "ObjectVersion list" where
  "exampleVersions =
     [\<lparr>Key = Some ''a/b'', VersionId = Some ''v9''\<rparr>,
      \<lparr>Key = Some ''a'', VersionId = Some ''v2''\<rparr>,
      \<lparr>Key = Some ''a'', VersionId = Some ''v1''\<rparr>]"

definition exampleBody :: ReadableStream where
  "exampleBody = Value [1, 2] (Value [3] Done)"

definition brokenBody :: ReadableStream where
  "brokenBody = Value [1, 2] (Failed (Error ''connection reset''))"

definition exampleStore :: "ReadableStream option \<Rightarrow> S3Client" where
  "exampleStore body =
     \<lparr>sendListObjectVersions = (\<lambda>command. Inr \<lparr>Versions = Some exampleVersions\<rparr>),
      sendGetObject = (\<lambda>command. Inr \<lparr>Body = body\<rparr>),
      presign = (\<lambda>command expiresIn. Inr ''https://vault.example/signed'')\<rparr>"

definition failingStore :: S3Client where
  "failingStore =
     \<lparr>sendListObjectVersions = (\<lambda>command. Inl (Error ''AccessDenied'')),
      sendGetObject = (\<lambda>command. Inl (Error ''AccessDenied'')),
      presign = (\<lambda>command expiresIn. Inl (Error ''AccessDenied''))\<rparr>"

definition exampleClient :: "S3Client option \<Rightarrow> Client" where
  "exampleClient s3 = \<lparr>s3Client = s3, settings = exampleSettings\<rparr>"

definition worldWith :: "DownloadState option \<Rightarrow> world" where
  "worldWith st = \<lparr>downloads = (\<lambda>id. if id = (''photo.png'', ''v1'') then st else None), trace = []\<rparr>"

definition exampleConfig :: Config where
  "exampleConfig =
     \<lparr>S3_LINK_PREFIX = ''s3:'',
      S3_SIGNED_LINK_PREFIX = ''s3-signed:'',
      S3_LINK_SPLITTER = ''//'',
      S3_SIGNED_LINK_EXPIRATION_TIME_SECONDS = 3600\<rparr>"

definition exampleTree :: HTMLElement where
  "exampleTree =
     HTMLElement ''div'' ''''
       [HTMLElement ''img'' ''s3://photo.png'' [],
        HTMLElement ''p'' ''''
          [HTMLElement ''img'' ''s3-signed://doc.pdf'' [],
           HTMLElement ''img'' ''s3://photo.png'' []],
        HTMLElement ''img'' ''https://example.org/x.png'' [],
        HTMLElement ''img'' ''s3://photo.png'' []]"

definition plainTree :: HTMLElement where
  "plainTree =
     HTMLElement ''div'' ''''
       [HTMLElement ''p'' '''' [], HTMLElement ''img'' ''https://example.org/x.png'' []]"

definition markerOnlyTree :: HTMLElement where
  "markerOnlyTree = HTMLElement ''div'' '''' [HTMLElement ''img'' ''s3:'' []]"

definition usedResolver :: Resolver where
  "usedResolver =
     \<lparr>objectKeys = [(Some ''old.png'', [([7], HTMLElement ''img'' ''s3://old.png'' [])])],
      signObjectKeys = []\<rparr>"

section \<open>Auxiliary facts\<close>

lemma coordinator_calls_append:
  "coordinator_calls (xs @ ys) = coordinator_calls xs @ coordinator_calls ys"
  by (induction xs rule: coordinator_calls.induct) simp_all

lemma getState_addNewDownload:
  "getState k v (addNewDownload k v r) =
     (case getState k v r of None \<Rightarrow> Some QUEUED | Some s \<Rightarrow> Some s)"
  by (simp add: getState_def addNewDownload_def split: option.split)

lemma getState_setRunningState:
  "getState k v (setRunningState k v r) =
     (case getState k v r of Some QUEUED \<Rightarrow> Some RUNNING | other \<Rightarrow> other)"
  by (simp add: getState_def setRunningState_def split: option.split DownloadState.split)

lemma getState_setCompletedState:
  "getState k v (setCompletedState k v r) =
     (case getState k v r of Some RUNNING \<Rightarrow> Some COMPLETED | other \<Rightarrow> other)"
  by (simp add: getState_def setCompletedState_def split: option.split DownloadState.split)

lemma getState_setErrorState:
  "getState k v (setErrorState k v r) =
     (case getState k v r of
        Some QUEUED \<Rightarrow> Some ERROR
      | Some RUNNING \<Rightarrow> Some ERROR
      | other \<Rightarrow> other)"
  by (simp add: getState_def setErrorState_def split: option.split DownloadState.split)

lemma drain_from_Value:
  "drain_from ls (Value v rest) w =
     (case drain_from ls rest w of (outcome, chunks, w') \<Rightarrow> (outcome, v # chunks, w'))"
  by (subst drain_from.simps) simp

lemma drain_from_Done: "drain_from ls Done w = (Inr (), [], emit ls ''end'' w)"
  by (subst drain_from.simps) simp

lemma drain_from_Failed: "drain_from ls (Failed err) w = (Inl err, [], emit ls ''error'' w)"
  by (subst drain_from.simps) simp

text \<open>With the one listener \<open>getObject\<close> registers, draining makes that listener's call at
  the end of the stream and none when a read fails.\<close>

lemma drain_from_end_listener:
  "drain_from [(''end'', call)] body wd =
     (case failure_of body of
        None \<Rightarrow> (Inr (), chunks_of body, coordinator call wd)
      | Some err \<Rightarrow> (Inl err, chunks_of body, wd))"
  by (induction body)
     (simp_all add: drain_from_Value drain_from_Done drain_from_Failed split: option.split)

lemma getObject_body:
  assumes "s3Client c = Some s3"
    and "sendGetObject s3 (GetObjectCommand (bucketName (settings c)) objectKey) = Inr response"
    and "Body response = Some body"
  shows "getObject c objectKey versionId w =
           (Inr \<lparr>reader = body, listeners = [(''end'', SetCompletedState objectKey versionId)]\<rparr>,
            coordinator (SetRunningState objectKey versionId)
              (record_event (Send (GetObjectCommand (bucketName (settings c)) objectKey))
                 (coordinator (AddNewDownload objectKey versionId) w)))"
  using assms by (simp add: getObject_def Let_def on_event_def browserStreamToReadable_def)

lemma map_of_append_element:
  "map_of (append_element key element m) =
     (map_of m)(key \<mapsto> (case map_of m key of None \<Rightarrow> [element] | Some elements \<Rightarrow> elements @ [element]))"
  by (simp add: append_element_def update_conv' split: option.split)

lemma distinct_append_element:
  "distinct (map fst (append_element key element m)) = distinct (map fst m)"
  by (auto simp: append_element_def update_keys map_of_eq_None_iff split: option.split)

lemma mset_update_Some:
  "map_of m key = Some elements \<Longrightarrow>
   mset (all_elements (AList.update key (elements @ [element]) m)) = add_mset element (mset (all_elements m))"
  by (induction m) (auto simp: all_elements_def)

lemma mset_update_None:
  "map_of m key = None \<Longrightarrow>
   mset (all_elements (AList.update key [element] m)) = add_mset element (mset (all_elements m))"
  by (induction m) (auto simp: all_elements_def)

lemma mset_append_element:
  "mset (all_elements (append_element key element m)) = add_mset element (mset (all_elements m))"
  by (simp add: append_element_def mset_update_Some mset_update_None split: option.split)

lemma paths_subtree_forest:
  "(q, n) \<in> set (subtree p e) \<Longrightarrow> prefix p q"
  "(q, n) \<in> set (forest p i cs) \<Longrightarrow> \<exists>j\<ge>i. prefix (p @ [j]) q"
proof (induction p e and p i cs arbitrary: q n and q n rule: subtree_forest.induct)
  case (1 p name s cs)
  show ?case
  proof (cases "q = p")
    case True
    then show ?thesis by simp
  next
    case False
    with 1(2) have "(q, n) \<in> set (forest p 0 cs)"
      by auto
    from 1(1) [OF this] obtain j where "prefix (p @ [j]) q"
      by blast
    then show ?thesis
      by (rule append_prefixD)
  qed
next
  case (2 p i)
  then show ?case
    by simp
next
  case (3 p i c cs)
  from 3(3) consider "(q, n) \<in> set (subtree (p @ [i]) c)" | "(q, n) \<in> set (forest p (Suc i) cs)"
    by auto
  then show ?case
  proof cases
    case 1
    from 3(1) [OF this] show ?thesis
      by blast
  next
    case 2
    from 3(2) [OF this] obtain j where "Suc i \<le> j" "prefix (p @ [j]) q"
      by blast
    then have "i \<le> j \<and> prefix (p @ [j]) q"
      by simp
    then show ?thesis
      by blast
  qed
qed

lemma distinct_subtree_forest:
  "distinct (map fst (subtree p e))"
  "distinct (map fst (forest p i cs))"
proof (induction p e and p i cs rule: subtree_forest.induct)
  case (1 p name s cs)
  have "p \<notin> fst ` set (forest p 0 cs)"
  proof
    assume "p \<in> fst ` set (forest p 0 cs)"
    then obtain n where "(p, n) \<in> set (forest p 0 cs)"
      by auto
    from paths_subtree_forest(2) [OF this] obtain j where "prefix (p @ [j]) p"
      by blast
    then show False
      by (auto simp: prefix_def)
  qed
  with 1 show ?case
    by simp
next
  case (2 p i)
  show ?case
    by simp
next
  case (3 p i c cs)
  have "fst ` set (subtree (p @ [i]) c) \<inter> fst ` set (forest p (Suc i) cs) = {}"
  proof (rule ccontr)
    assume "\<not> ?thesis"
    then obtain q n m where a: "(q, n) \<in> set (subtree (p @ [i]) c)"
      and b: "(q, m) \<in> set (forest p (Suc i) cs)"
      by auto
    from paths_subtree_forest(1) [OF a] have pa: "prefix (p @ [i]) q" .
    from paths_subtree_forest(2) [OF b] obtain j where j: "Suc i \<le> j" "prefix (p @ [j]) q"
      by blast
    from pa j(2) have "p @ [i] = p @ [j]"
      by (auto simp: prefix_def append_eq_append_conv)
    with j(1) show False
      by simp
  qed
  with 3 show ?case
    by simp
qed

lemma distinct_querySelectorAll: "distinct (querySelectorAll element selector)"
proof -
  have "distinct (forest [] 0 (childNodes element))"
    using distinct_subtree_forest(2)[of "[]" 0 "childNodes element"] by (rule distinct_map[THEN iffD1, THEN conjunct1])
  then show ?thesis by (simp add: querySelectorAll_def)
qed


lemma resolveImageElement_cases:
  "resolveImageElement cfg e r =
     (if is_object_link cfg e then addObjectKey (link_key cfg e) e r
      else if is_sign_link cfg e then addSignObjectKey (link_key cfg e) e r
      else r)"
  by (simp add: resolveImageElement_def is_object_link_def is_sign_link_def link_key_def
        link_parts_def Let_def)

lemma resolveHtmlElement_fold:
  "resolveHtmlElement cfg element r =
     fold (resolveImageElement cfg) (querySelectorAll element targetElement)
       \<lparr>objectKeys = [], signObjectKeys = []\<rparr>"
  by (cases r) (simp add: resolveHtmlElement_def Let_def clearObjectKeys_def clearSignObjectKeys_def)

lemma objectKeys_step:
  "objectKeys (resolveImageElement cfg e r) =
     (if is_object_link cfg e then append_element (link_key cfg e) e (objectKeys r) else objectKeys r)"
  by (simp add: resolveImageElement_cases addObjectKey_def addSignObjectKey_def)

lemma signObjectKeys_step:
  "signObjectKeys (resolveImageElement cfg e r) =
     (if is_sign_link cfg e then append_element (link_key cfg e) e (signObjectKeys r)
      else signObjectKeys r)"
  by (simp add: resolveImageElement_cases addObjectKey_def addSignObjectKey_def is_sign_link_def)

text \<open>Filing the elements that pass a test, each under its key, one after the other.\<close>

lemma filed_lookup:
  assumes step: "\<And>e r. field (f e r) = (if P e then append_element (key e) e (field r) else field r)"
    and start: "field r0 = []"
  shows "map_of (field (fold f xs r0)) k =
           (if \<exists>e \<in> set xs. P e \<and> key e = k then Some (filter (\<lambda>e. P e \<and> key e = k) xs) else None)"
proof (induction xs rule: rev_induct)
  case Nil
  then show ?case by (simp add: start)
next
  case (snoc x xs)
  show ?case
  proof (cases "P x")
    case False
    with snoc show ?thesis by (simp add: step)
  next
    case True
    show ?thesis
    proof (cases "key x = k")
      case same: True
      with True snoc show ?thesis
        by (auto simp: step map_of_append_element filter_empty_conv)
    next
      case False
      with True snoc show ?thesis
        by (auto simp: step map_of_append_element)
    qed
  qed
qed

lemma filed_distinct_keys:
  assumes step: "\<And>e r. field (f e r) = (if P e then append_element (key e) e (field r) else field r)"
    and start: "field r0 = []"
  shows "distinct (map fst (field (fold f xs r0)))"
  by (induction xs rule: rev_induct) (simp_all add: start step distinct_append_element)

lemma filed_elements:
  assumes step: "\<And>e r. field (f e r) = (if P e then append_element (key e) e (field r) else field r)"
    and start: "field r0 = []"
  shows "mset (all_elements (field (fold f xs r0))) = mset (filter P xs)"
proof (induction xs rule: rev_induct)
  case Nil
  then show ?case by (simp add: start all_elements_def)
next
  case (snoc x xs)
  then show ?case by (simp add: step mset_append_element)
qed

text \<open>A reference that splits into fewer than two parts is its own single part (or
  gives no part at all), so the callback leaves the resolver alone unless the reference
  is itself one of the two markers.\<close>

lemma splitParts_nonempty: "splitParts separator part s \<noteq> []"
  by (induction separator part s rule: splitParts.induct) simp_all

lemma splitParts_single:
  "length (splitParts separator part s) < 2 \<Longrightarrow> splitParts separator part s = [part @ s]"
proof (induction separator part s rule: splitParts.induct)
  case (1 separator part)
  then show ?case by simp
next
  case (2 separator part c cs)
  show ?case
  proof (cases "separator \<noteq> [] \<and> prefix separator (c # cs)")
    case True
    have "splitParts separator [] (drop (length separator) (c # cs)) \<noteq> []"
      by (rule splitParts_nonempty)
    then have "length (splitParts separator [] (drop (length separator) (c # cs))) \<ge> 1"
      by (simp add: Suc_le_eq)
    with True 2(3) show ?thesis
      by simp
  next
    case False
    with 2(2) 2(3) show ?thesis
      by auto
  qed
qed

lemma js_split_single:
  assumes "length (js_split s separator) < 2"
  shows "js_split s separator = [s] \<or> js_split s separator = []"
proof (cases "separator = []")
  case True
  with assms show ?thesis
    by (cases s) (auto simp: js_split_def)
next
  case False
  with assms splitParts_single [of separator "[]" s] show ?thesis
    by (simp add: js_split_def)
qed

lemma resolveImageElement_single_part:
  assumes "length (js_split (src (snd e)) (S3_LINK_SPLITTER cfg)) < 2"
    and "src (snd e) \<noteq> S3_LINK_PREFIX cfg"
    and "src (snd e) \<noteq> S3_SIGNED_LINK_PREFIX cfg"
  shows "resolveImageElement cfg e r = r"
  using js_split_single [OF assms(1)] assms(2,3)
  by (auto simp: resolveImageElement_def at_def s3LinkLeftPart_def)

text \<open>A marker that does not contain the splitter is a reference of one part, and an
  element whose reference is that marker is filed under the missing second part.\<close>

lemma resolveImageElement_marker_only:
  assumes "js_split (S3_LINK_PREFIX cfg) (S3_LINK_SPLITTER cfg) = [S3_LINK_PREFIX cfg]"
    and "src (snd e) = S3_LINK_PREFIX cfg"
  shows "resolveImageElement cfg e r = addObjectKey None e r"
  using assms by (simp add: resolveImageElement_def at_def s3LinkLeftPart_def s3LinkRightPart_def)

text \<open>Once \<open>getObject\<close> has returned a stream, a read of the body that fails ends the drain
  with that failure and changes nothing in the world: the only listener on the stream
  is the one for \<open>end\<close>, so no coordinator call is made, whatever the body, the record
  and the world the stream is drained in.\<close>

lemma drain_failure_makes_no_call:
  assumes init: "s3Client c = Some s3"
    and resp: "sendGetObject s3 (GetObjectCommand (bucketName (settings c)) objectKey) = Inr response"
    and body: "Body response = Some body"
    and broken: "failure_of body = Some err"
    and run: "getObject c objectKey versionId w = (result, w')"
  shows "\<exists>stream. result = Inr stream \<and> (\<forall>wd. drain stream wd = (Inl err, chunks_of body, wd))"
proof -
  from getObject_body [OF init resp body, of versionId w] run
  have "result = Inr \<lparr>reader = body, listeners = [(''end'', SetCompletedState objectKey versionId)]\<rparr>"
    by simp
  then show ?thesis
    using broken by (simp add: drain_def drain_from_end_listener)
qed

section \<open>Results about the client\<close>

text \<open>
  C1. Once the listing has come back, \<open>getLatestObjectVersion\<close> looks only at the listed
  versions whose key equals the requested key: versions with any other key, such as the
  longer keys a prefix listing returns, are passed over wherever they stand. It returns
  the version id of the first version with exactly that key, and \<open>undefined\<close>, not an
  exception, when no listed version has that key.
\<close>

theorem getLatestObjectVersion_first_exact_match:
  assumes "s3Client c = Some s3"
    and "sendListObjectVersions s3 (ListObjectVersionsCommand (bucketName (settings c)) objectKey)
           = Inr response"
    and "listed = (case Versions response of None \<Rightarrow> [] | Some versions \<Rightarrow> versions)"
  shows "((\<forall>u \<in> set listed. Key u \<noteq> Some objectKey) \<longrightarrow>
            fst (getLatestObjectVersion c objectKey w) = Inr None)
       \<and> (\<forall>before version after.
            listed = before @ version # after \<and> Key version = Some objectKey
            \<and> (\<forall>u \<in> set before. Key u \<noteq> Some objectKey) \<longrightarrow>
            fst (getLatestObjectVersion c objectKey w) = Inr (VersionId version))"
proof -
  let ?exact = "filter (\<lambda>version. Key version = Some objectKey) listed"
  have run: "fst (getLatestObjectVersion c objectKey w) =
               (if length ?exact > 0 then Inr (VersionId (?exact ! 0)) else Inr None)"
    using assms
    by (simp add: getLatestObjectVersion_def getObjectMetadata_def Let_def split: option.split)
  have none: "(\<forall>u \<in> set listed. Key u \<noteq> Some objectKey) \<Longrightarrow> ?exact = []"
    by (simp add: filter_empty_conv)
  have first: "?exact = version # filter (\<lambda>version. Key version = Some objectKey) after"
    if "listed = before @ version # after" "Key version = Some objectKey"
       "\<forall>u \<in> set before. Key u \<noteq> Some objectKey" for before version after
    using that by (simp add: filter_empty_conv)
  show ?thesis
    using run none first by (auto simp del: length_greater_0_conv)
qed

text \<open>The listing holds \<open>a/b\<close> (v9) before \<open>a\<close> (v2) and \<open>a\<close> (v1): asking for \<open>a\<close> gives v2,
  asking for \<open>a/\<close> gives \<open>undefined\<close>.\<close>

theorem getLatestObjectVersion_first_exact_match_witness:
  "fst (getLatestObjectVersion (exampleClient (Some (exampleStore None))) ''a'' (worldWith None))
     = Inr (Some ''v2'')
   \<and> fst (getLatestObjectVersion (exampleClient (Some (exampleStore None))) ''a/'' (worldWith None))
     = Inr None"
proof -
  let ?c = "exampleClient (Some (exampleStore None))"
  have init: "s3Client ?c = Some (exampleStore None)"
    by (simp add: exampleClient_def)
  have listing: "sendListObjectVersions (exampleStore None)
                   (ListObjectVersionsCommand (bucketName (settings ?c)) k)
                 = Inr \<lparr>Versions = Some exampleVersions\<rparr>" for k
    by (simp add: exampleStore_def)
  have listed: "exampleVersions =
                  (case Versions \<lparr>Versions = Some exampleVersions\<rparr> of None \<Rightarrow> [] | Some versions \<Rightarrow> versions)"
    by simp
  note a = getLatestObjectVersion_first_exact_match [OF init listing listed, of "''a''" "worldWith None"]
  note b = getLatestObjectVersion_first_exact_match [OF init listing listed, of "''a/''" "worldWith None"]
  from a have "exampleVersions =
                 [\<lparr>Key = Some ''a/b'', VersionId = Some ''v9''\<rparr>]
                 @ \<lparr>Key = Some ''a'', VersionId = Some ''v2''\<rparr> # [\<lparr>Key = Some ''a'', VersionId = Some ''v1''\<rparr>]
               \<and> Key \<lparr>Key = Some ''a'', VersionId = Some ''v2''\<rparr> = Some ''a''
               \<and> (\<forall>u \<in> set [\<lparr>Key = Some ''a/b'', VersionId = Some ''v9''\<rparr>]. Key u \<noteq> Some ''a'')
               \<longrightarrow> fst (getLatestObjectVersion ?c ''a'' (worldWith None))
                     = Inr (VersionId \<lparr>Key = Some ''a'', VersionId = Some ''v2''\<rparr>)"
    by blast
  then have first: "fst (getLatestObjectVersion ?c ''a'' (worldWith None)) = Inr (Some ''v2'')"
    by (simp add: exampleVersions_def)
  from b have second: "fst (getLatestObjectVersion ?c ''a/'' (worldWith None)) = Inr None"
    by (simp add: exampleVersions_def)
  show ?thesis using first second by simp
qed

text \<open>
  C2. On an initialized client whose request is answered with a body, and when the
  registry holds no record for (key, version id) yet or one that is still QUEUED,
  \<open>getObject\<close> registers the attempt, which leaves the record QUEUED, before it sends the
  request; with the body present it moves the record to RUNNING and returns a stream
  over that body; and draining this stream to its end, in any later world where the
  record is still RUNNING, delivers the body's chunks and moves the record to COMPLETED.
\<close>

theorem getObject_lifecycle_fresh_record:
  assumes init: "s3Client c = Some s3"
    and resp: "sendGetObject s3 (GetObjectCommand (bucketName (settings c)) objectKey) = Inr response"
    and body: "Body response = Some body"
    and fresh: "getState objectKey versionId (downloads w) = None
              \<or> getState objectKey versionId (downloads w) = Some QUEUED"
    and run: "getObject c objectKey versionId w = (result, w')"
  shows "(\<exists>stream. result = Inr stream \<and> reader stream = body
          \<and> (\<forall>wd. failure_of body = None
                  \<and> getState objectKey versionId (downloads wd) = Some RUNNING \<longrightarrow>
                 fst (drain stream wd) = Inr ()
               \<and> fst (snd (drain stream wd)) = chunks_of body
               \<and> trace (snd (snd (drain stream wd)))
                   = trace wd @ [Coordinator (SetCompletedState objectKey versionId)]
               \<and> getState objectKey versionId (downloads (snd (snd (drain stream wd))))
                   = Some COMPLETED))
       \<and> trace w' = trace w @
            [Coordinator (AddNewDownload objectKey versionId),
             Send (GetObjectCommand (bucketName (settings c)) objectKey),
             Coordinator (SetRunningState objectKey versionId)]
       \<and> getState objectKey versionId (addNewDownload objectKey versionId (downloads w)) = Some QUEUED
       \<and> getState objectKey versionId (downloads w') = Some RUNNING"
proof -
  let ?stream = "\<lparr>reader = body, listeners = [(''end'', SetCompletedState objectKey versionId)]\<rparr>"
  from getObject_body [OF init resp body, of versionId w] run
  have res: "result = Inr ?stream"
    and w': "w' = coordinator (SetRunningState objectKey versionId)
              (record_event (Send (GetObjectCommand (bucketName (settings c)) objectKey))
                 (coordinator (AddNewDownload objectKey versionId) w))"
    by simp_all
  have queued: "getState objectKey versionId (addNewDownload objectKey versionId (downloads w))
                  = Some QUEUED"
    using fresh by (auto simp: getState_addNewDownload)
  have running: "getState objectKey versionId (downloads w') = Some RUNNING"
    using queued by (simp add: w' coordinator_def record_event_def getState_setRunningState)
  have tr: "trace w' = trace w @
            [Coordinator (AddNewDownload objectKey versionId),
             Send (GetObjectCommand (bucketName (settings c)) objectKey),
             Coordinator (SetRunningState objectKey versionId)]"
    by (simp add: w' coordinator_def record_event_def)
  have dr: "fst (drain ?stream wd) = Inr ()
          \<and> fst (snd (drain ?stream wd)) = chunks_of body
          \<and> trace (snd (snd (drain ?stream wd)))
              = trace wd @ [Coordinator (SetCompletedState objectKey versionId)]
          \<and> getState objectKey versionId (downloads (snd (snd (drain ?stream wd)))) = Some COMPLETED"
    if "failure_of body = None" "getState objectKey versionId (downloads wd) = Some RUNNING" for wd
    using that
    by (simp add: drain_def drain_from_end_listener coordinator_def getState_setCompletedState)
  show ?thesis
    using res queued running tr dr by simp
qed

text \<open>A first fetch of \<open>photo.png\<close>, version \<open>v1\<close>, whose body ends normally: the calls are
  made in the order register, send, running; the record is RUNNING on return and
  COMPLETED once the stream has been drained.\<close>

theorem getObject_lifecycle_fresh_record_witness:
  "trace (snd (getObject (exampleClient (Some (exampleStore (Some exampleBody)))) ''photo.png'' ''v1''
                 (worldWith None)))
     = [Coordinator (AddNewDownload ''photo.png'' ''v1''),
        Send (GetObjectCommand ''vault'' ''photo.png''),
        Coordinator (SetRunningState ''photo.png'' ''v1'')]
   \<and> getState ''photo.png'' ''v1''
        (downloads (snd (getObject (exampleClient (Some (exampleStore (Some exampleBody))))
                           ''photo.png'' ''v1'' (worldWith None))))
     = Some RUNNING
   \<and> (\<exists>stream.
        fst (getObject (exampleClient (Some (exampleStore (Some exampleBody)))) ''photo.png'' ''v1''
               (worldWith None)) = Inr stream
      \<and> fst (snd (drain stream (worldWith (Some RUNNING)))) = [[1, 2], [3]]
      \<and> getState ''photo.png'' ''v1'' (downloads (snd (snd (drain stream (worldWith (Some RUNNING))))))
          = Some COMPLETED)"
proof -
  let ?c = "exampleClient (Some (exampleStore (Some exampleBody)))"
  have init: "s3Client ?c = Some (exampleStore (Some exampleBody))"
    by (simp add: exampleClient_def)
  have resp: "sendGetObject (exampleStore (Some exampleBody))
                (GetObjectCommand (bucketName (settings ?c)) ''photo.png'')
              = Inr \<lparr>Body = Some exampleBody\<rparr>"
    by (simp add: exampleStore_def)
  have body: "Body \<lparr>Body = Some exampleBody\<rparr> = Some exampleBody"
    by simp
  have fresh: "getState ''photo.png'' ''v1'' (downloads (worldWith None)) = None
             \<or> getState ''photo.png'' ''v1'' (downloads (worldWith None)) = Some QUEUED"
    by (simp add: getState_def worldWith_def)
  have run: "getObject ?c ''photo.png'' ''v1'' (worldWith None)
             = (fst (getObject ?c ''photo.png'' ''v1'' (worldWith None)),
                snd (getObject ?c ''photo.png'' ''v1'' (worldWith None)))"
    by simp
  have ends: "failure_of exampleBody = None"
    and chunks: "chunks_of exampleBody = [[1, 2], [3]]"
    and running: "getState ''photo.png'' ''v1'' (downloads (worldWith (Some RUNNING))) = Some RUNNING"
    by (simp_all add: exampleBody_def getState_def worldWith_def)
  note fact = getObject_lifecycle_fresh_record [OF init resp body fresh run]
  from fact ends chunks running show ?thesis
    by (auto simp: worldWith_def exampleClient_def exampleSettings_def)
qed

text \<open>A record left in ERROR by an earlier attempt: registration is a no-op on it and
  ERROR is terminal, so the fetch succeeds and the stream is drained to its end while
  the record is neither RUNNING on return nor COMPLETED afterwards.\<close>

theorem getObject_lifecycle_existing_record_counterexample:
  "fst (getObject (exampleClient (Some (exampleStore (Some exampleBody)))) ''photo.png'' ''v1''
          (worldWith (Some ERROR)))
     = Inr \<lparr>reader = exampleBody, listeners = [(''end'', SetCompletedState ''photo.png'' ''v1'')]\<rparr>
   \<and> getState ''photo.png'' ''v1''
        (downloads (snd (getObject (exampleClient (Some (exampleStore (Some exampleBody))))
                           ''photo.png'' ''v1'' (worldWith (Some ERROR)))))
     = Some ERROR
   \<and> fst (drain \<lparr>reader = exampleBody, listeners = [(''end'', SetCompletedState ''photo.png'' ''v1'')]\<rparr>
            (snd (getObject (exampleClient (Some (exampleStore (Some exampleBody))))
                    ''photo.png'' ''v1'' (worldWith (Some ERROR)))))
     = Inr ()
   \<and> getState ''photo.png'' ''v1''
        (downloads (snd (snd (drain
           \<lparr>reader = exampleBody, listeners = [(''end'', SetCompletedState ''photo.png'' ''v1'')]\<rparr>
           (snd (getObject (exampleClient (Some (exampleStore (Some exampleBody))))
                   ''photo.png'' ''v1'' (worldWith (Some ERROR))))))))
     = Some ERROR"
  by (simp add: getObject_def exampleClient_def exampleStore_def exampleSettings_def worldWith_def
        exampleBody_def coordinator_def record_event_def on_event_def browserStreamToReadable_def
        drain_def drain_from_end_listener getState_def addNewDownload_def setRunningState_def
        setCompletedState_def)

text \<open>
  C3. On an initialized client whose request is rejected, or answered without a body,
  \<open>getObject\<close> never returns a stream: it fails, with the store's own error when the
  request was rejected. Before failing it has registered the attempt, sent the request
  and called \<open>setErrorState\<close> for (key, version id), in this order, which leaves the record
  in ERROR unless the registry already held it as COMPLETED; that state is terminal and
  is kept.
\<close>

theorem getObject_failure_raised:
  assumes init: "s3Client c = Some s3"
    and failure: "sendGetObject s3 (GetObjectCommand (bucketName (settings c)) objectKey) = Inl err
                \<or> (\<exists>response.
                      sendGetObject s3 (GetObjectCommand (bucketName (settings c)) objectKey)
                        = Inr response
                      \<and> Body response = None)"
    and run: "getObject c objectKey versionId w = (result, w')"
  shows "(\<exists>e. result = Inl e)
       \<and> (sendGetObject s3 (GetObjectCommand (bucketName (settings c)) objectKey) = Inl err \<longrightarrow>
            result = Inl err)
       \<and> trace w' = trace w @
            [Coordinator (AddNewDownload objectKey versionId),
             Send (GetObjectCommand (bucketName (settings c)) objectKey),
             Coordinator (SetErrorState objectKey versionId)]
       \<and> (getState objectKey versionId (downloads w) \<noteq> Some COMPLETED \<longrightarrow>
            getState objectKey versionId (downloads w') = Some ERROR)"
proof -
  let ?cmd = "GetObjectCommand (bucketName (settings c)) objectKey"
  let ?w2 = "coordinator (SetErrorState objectKey versionId)
               (record_event (Send ?cmd) (coordinator (AddNewDownload objectKey versionId) w))"
  have res: "(\<exists>e. result = Inl e) \<and> (sendGetObject s3 ?cmd = Inl err \<longrightarrow> result = Inl err)
           \<and> w' = ?w2"
    using init failure run by (auto simp: getObject_def Let_def)
  have tr: "trace ?w2 = trace w @
              [Coordinator (AddNewDownload objectKey versionId), Send ?cmd,
               Coordinator (SetErrorState objectKey versionId)]"
    by (simp add: coordinator_def record_event_def)
  have st: "getState objectKey versionId (downloads ?w2) = Some ERROR"
    if "getState objectKey versionId (downloads w) \<noteq> Some COMPLETED"
    using that
    by (cases "getState objectKey versionId (downloads w)")
       (auto simp: coordinator_def record_event_def getState_setErrorState getState_addNewDownload
             split: DownloadState.split)
  show ?thesis using res tr st by simp
qed

text \<open>A first fetch that the store rejects with AccessDenied: the caller gets that error and
  the record is in ERROR.\<close>

theorem getObject_failure_raised_witness:
  "fst (getObject (exampleClient (Some failingStore)) ''photo.png'' ''v1'' (worldWith None))
     = Inl (Error ''AccessDenied'')
   \<and> coordinator_calls
       (trace (snd (getObject (exampleClient (Some failingStore)) ''photo.png'' ''v1'' (worldWith None))))
     = [AddNewDownload ''photo.png'' ''v1'', SetErrorState ''photo.png'' ''v1'']
   \<and> getState ''photo.png'' ''v1''
        (downloads (snd (getObject (exampleClient (Some failingStore)) ''photo.png'' ''v1''
                           (worldWith None))))
     = Some ERROR"
proof -
  let ?c = "exampleClient (Some failingStore)"
  have init: "s3Client ?c = Some failingStore"
    by (simp add: exampleClient_def)
  have failure: "sendGetObject failingStore (GetObjectCommand (bucketName (settings ?c)) ''photo.png'')
                   = Inl (Error ''AccessDenied'')
               \<or> (\<exists>response.
                     sendGetObject failingStore (GetObjectCommand (bucketName (settings ?c)) ''photo.png'')
                       = Inr response
                     \<and> Body response = None)"
    by (simp add: failingStore_def)
  have run: "getObject ?c ''photo.png'' ''v1'' (worldWith None)
             = (fst (getObject ?c ''photo.png'' ''v1'' (worldWith None)),
                snd (getObject ?c ''photo.png'' ''v1'' (worldWith None)))"
    by simp
  have absent: "getState ''photo.png'' ''v1'' (downloads (worldWith None)) \<noteq> Some COMPLETED"
    by (simp add: getState_def worldWith_def)
  note fact = getObject_failure_raised [OF init failure run]
  from fact absent show ?thesis
    by (simp add: failingStore_def worldWith_def)
qed

text \<open>A record that an earlier fetch left COMPLETED: the store rejects the new request, the
  caller gets the error, and the record is still COMPLETED, not ERROR.\<close>

theorem getObject_failure_completed_record_counterexample:
  "fst (getObject (exampleClient (Some failingStore)) ''photo.png'' ''v1'' (worldWith (Some COMPLETED)))
     = Inl (Error ''AccessDenied'')
   \<and> getState ''photo.png'' ''v1''
        (downloads (snd (getObject (exampleClient (Some failingStore)) ''photo.png'' ''v1''
                           (worldWith (Some COMPLETED)))))
     = Some COMPLETED"
  by (simp add: getObject_def exampleClient_def failingStore_def exampleSettings_def worldWith_def
        coordinator_def record_event_def getState_def addNewDownload_def setErrorState_def)

text \<open>
  C4. A first fetch of \<open>photo.png\<close>, version \<open>v1\<close>, is answered with a body whose second
  read fails with "connection reset". \<open>getObject\<close> returns a stream whose only listener is
  the one for \<open>end\<close>; draining it fails with that error, and the calls made on the
  coordinator are the registration and the move to RUNNING only: \<open>setErrorState\<close> is never
  called and the record is left RUNNING, where a failure while draining ought to leave
  it in ERROR, as the failures of the request itself do through the \<open>catch\<close> block. This
  is so for every body with a failing read (\<open>drain_failure_makes_no_call\<close>).
\<close>

theorem drain_failure_record_stays_running:
  "fst (getObject (exampleClient (Some (exampleStore (Some brokenBody)))) ''photo.png'' ''v1''
          (worldWith None))
     = Inr \<lparr>reader = brokenBody, listeners = [(''end'', SetCompletedState ''photo.png'' ''v1'')]\<rparr>
   \<and> fst (drain \<lparr>reader = brokenBody, listeners = [(''end'', SetCompletedState ''photo.png'' ''v1'')]\<rparr>
            (snd (getObject (exampleClient (Some (exampleStore (Some brokenBody))))
                    ''photo.png'' ''v1'' (worldWith None))))
     = Inl (Error ''connection reset'')
   \<and> coordinator_calls (trace (snd (snd (drain
        \<lparr>reader = brokenBody, listeners = [(''end'', SetCompletedState ''photo.png'' ''v1'')]\<rparr>
        (snd (getObject (exampleClient (Some (exampleStore (Some brokenBody))))
                ''photo.png'' ''v1'' (worldWith None)))))))
     = [AddNewDownload ''photo.png'' ''v1'', SetRunningState ''photo.png'' ''v1'']
   \<and> getState ''photo.png'' ''v1''
        (downloads (snd (snd (drain
           \<lparr>reader = brokenBody, listeners = [(''end'', SetCompletedState ''photo.png'' ''v1'')]\<rparr>
           (snd (getObject (exampleClient (Some (exampleStore (Some brokenBody))))
                   ''photo.png'' ''v1'' (worldWith None)))))))
     = Some RUNNING"
  by (simp add: getObject_def exampleClient_def exampleStore_def exampleSettings_def worldWith_def
        brokenBody_def coordinator_def record_event_def on_event_def browserStreamToReadable_def
        drain_def drain_from_end_listener getState_def addNewDownload_def setRunningState_def)

text \<open>
  C5. Called on a client whose \<open>s3Client\<close> is null, each of the three public operations,
  \<open>getLatestObjectVersion\<close>, \<open>getObject\<close> and \<open>getSignedUrlForObject\<close>, fails with the error
  "S3Client not initialized" and returns the world it was called in: nothing is sent to
  the object store and nothing is signed.
\<close>

theorem uninitialized_client_fails_fast:
  assumes "s3Client c = None"
  shows "getLatestObjectVersion c objectKey w = (Inl notInitialized, w)
       \<and> getObject c objectKey versionId w = (Inl notInitialized, w)
       \<and> getSignedUrlForObject cfg c objectKey w = (Inl notInitialized, w)"
  using assms
  by (simp add: getLatestObjectVersion_def getObjectMetadata_def getObject_def
        getSignedUrlForObject_def)

theorem uninitialized_client_fails_fast_witness:
  "s3Client (exampleClient None) = None
   \<and> getLatestObjectVersion (exampleClient None) ''a'' (worldWith None)
       = (Inl (Error ''S3Client not initialized''), worldWith None)
   \<and> getObject (exampleClient None) ''a'' ''v2'' (worldWith None)
       = (Inl (Error ''S3Client not initialized''), worldWith None)
   \<and> getSignedUrlForObject exampleConfig (exampleClient None) ''a'' (worldWith None)
       = (Inl (Error ''S3Client not initialized''), worldWith None)"
proof -
  have init: "s3Client (exampleClient None) = None"
    by (simp add: exampleClient_def)
  from uninitialized_client_fails_fast [OF init, of "''a''" "worldWith None" "''v2''" exampleConfig]
  show ?thesis
    using init by (simp add: notInitialized_def)
qed

text \<open>
  C9. \<open>getSignedUrlForObject\<close> never touches the download coordinator: whatever the
  client, the key and the outcome of the signing, the registry after the call is the
  registry before it, and the call adds no coordinator call to the trace.
\<close>

theorem getSignedUrlForObject_registry_unchanged:
  "downloads (snd (getSignedUrlForObject cfg c objectKey w)) = downloads w
   \<and> coordinator_calls (trace (snd (getSignedUrlForObject cfg c objectKey w)))
       = coordinator_calls (trace w)"
  by (simp add: getSignedUrlForObject_def record_event_def coordinator_calls_append Let_def
        split: option.split)

text \<open>
  C10. When \<open>getObject\<close> is called on a client whose \<open>s3Client\<close> is null, the precondition
  error is raised before the coordinator is touched: the call fails with
  "S3Client not initialized" and leaves the world it was called in as it is, so the
  registry is unchanged; no record is created for (key, version id), the state of every
  record is what it was, and no coordinator call is made.
\<close>

theorem getObject_uninitialized_registry_unchanged:
  assumes "s3Client c = None"
  shows "fst (getObject c objectKey versionId w) = Inl notInitialized
       \<and> downloads (snd (getObject c objectKey versionId w)) = downloads w
       \<and> getState objectKey versionId (downloads (snd (getObject c objectKey versionId w)))
           = getState objectKey versionId (downloads w)
       \<and> coordinator_calls (trace (snd (getObject c objectKey versionId w)))
           = coordinator_calls (trace w)"
  using assms by (simp add: getObject_def)

text \<open>With no client and an empty registry, the call fails and the registry still has no
  record for the requested pair.\<close>

theorem getObject_uninitialized_registry_unchanged_witness:
  "s3Client (exampleClient None) = None
   \<and> fst (getObject (exampleClient None) ''photo.png'' ''v1'' (worldWith None))
       = Inl (Error ''S3Client not initialized'')
   \<and> getState ''photo.png'' ''v1''
       (downloads (snd (getObject (exampleClient None) ''photo.png'' ''v1'' (worldWith None))))
       = None"
proof -
  have init: "s3Client (exampleClient None) = None"
    by (simp add: exampleClient_def)
  from getObject_uninitialized_registry_unchanged [OF init, of "''photo.png''" "''v1''" "worldWith None"]
  show ?thesis
    using init by (simp add: notInitialized_def getState_def worldWith_def)
qed

section \<open>Results about the image resolver\<close>

text \<open>
  C7. For every tree, the \<open>img\<close> elements found are pairwise different; each map of the
  result has one entry per key; every element that passes the direct test is held
  exactly once in the direct map and every element that passes the signed test exactly
  once in the signed map, and no element is held twice over the two maps taken together.
  The entry of a key is the sequence of all elements filed under that key, in document
  order, so N elements that reference one key make one entry of N element references.
\<close>

theorem resolveHtmlElement_files_each_element_once:
  assumes "res = resolveHtmlElement cfg element r"
    and "imgs = querySelectorAll element targetElement"
  shows "distinct imgs
       \<and> distinct (map fst (objectKeys res)) \<and> distinct (map fst (signObjectKeys res))
       \<and> mset (all_elements (objectKeys res)) = mset (filter (is_object_link cfg) imgs)
       \<and> mset (all_elements (signObjectKeys res)) = mset (filter (is_sign_link cfg) imgs)
       \<and> distinct (all_elements (objectKeys res) @ all_elements (signObjectKeys res))
       \<and> (\<forall>key. map_of (objectKeys res) key =
            (if \<exists>e \<in> set imgs. is_object_link cfg e \<and> link_key cfg e = key
             then Some (filter (\<lambda>e. is_object_link cfg e \<and> link_key cfg e = key) imgs)
             else None))
       \<and> (\<forall>key. map_of (signObjectKeys res) key =
            (if \<exists>e \<in> set imgs. is_sign_link cfg e \<and> link_key cfg e = key
             then Some (filter (\<lambda>e. is_sign_link cfg e \<and> link_key cfg e = key) imgs)
             else None))"
proof -
  let ?r0 = "\<lparr>objectKeys = [], signObjectKeys = []\<rparr>"
  have res: "res = fold (resolveImageElement cfg) imgs ?r0"
    using assms by (simp add: resolveHtmlElement_fold)
  have d: "distinct imgs"
    using assms(2) by (simp add: distinct_querySelectorAll)
  have ok: "mset (all_elements (objectKeys res)) = mset (filter (is_object_link cfg) imgs)"
    unfolding res by (rule filed_elements [OF objectKeys_step]) simp
  have sk: "mset (all_elements (signObjectKeys res)) = mset (filter (is_sign_link cfg) imgs)"
    unfolding res by (rule filed_elements [OF signObjectKeys_step]) simp
  have "mset (all_elements (objectKeys res) @ all_elements (signObjectKeys res))
          = mset (filter (\<lambda>e. is_object_link cfg e \<or> is_sign_link cfg e) imgs)"
    by (simp add: ok sk is_sign_link_def) (induction imgs; simp)
  then have both: "distinct (all_elements (objectKeys res) @ all_elements (signObjectKeys res))"
    using d mset_eq_imp_distinct_iff distinct_filter by blast
  have dk: "distinct (map fst (objectKeys res))" "distinct (map fst (signObjectKeys res))"
    unfolding res
    by (rule filed_distinct_keys [OF objectKeys_step], simp)
       (rule filed_distinct_keys [OF signObjectKeys_step], simp)
  have lk: "map_of (objectKeys res) key =
            (if \<exists>e \<in> set imgs. is_object_link cfg e \<and> link_key cfg e = key
             then Some (filter (\<lambda>e. is_object_link cfg e \<and> link_key cfg e = key) imgs)
             else None)" for key
    unfolding res by (rule filed_lookup [OF objectKeys_step]) simp
  have ls: "map_of (signObjectKeys res) key =
            (if \<exists>e \<in> set imgs. is_sign_link cfg e \<and> link_key cfg e = key
             then Some (filter (\<lambda>e. is_sign_link cfg e \<and> link_key cfg e = key) imgs)
             else None)" for key
    unfolding res by (rule filed_lookup [OF signObjectKeys_step]) simp
  show ?thesis
    using d dk ok sk both lk ls by simp
qed

text \<open>In the example tree three images reference \<open>photo.png\<close> and one \<open>doc.pdf\<close>: the direct
  map has the three under \<open>photo.png\<close> in document order, the signed map the one under
  \<open>doc.pdf\<close>, and the direct map has nothing under \<open>doc.pdf\<close>.\<close>

theorem resolveHtmlElement_files_each_element_once_witness:
  "map_of (objectKeys (resolveHtmlElement exampleConfig exampleTree usedResolver)) (Some ''photo.png'')
     = Some [([0], HTMLElement ''img'' ''s3://photo.png'' []),
             ([1, 1], HTMLElement ''img'' ''s3://photo.png'' []),
             ([3], HTMLElement ''img'' ''s3://photo.png'' [])]
   \<and> map_of (signObjectKeys (resolveHtmlElement exampleConfig exampleTree usedResolver)) (Some ''doc.pdf'')
     = Some [([1, 0], HTMLElement ''img'' ''s3-signed://doc.pdf'' [])]
   \<and> map_of (objectKeys (resolveHtmlElement exampleConfig exampleTree usedResolver)) (Some ''doc.pdf'')
     = None"
proof -
  have imgs: "querySelectorAll exampleTree targetElement =
                [([0], HTMLElement ''img'' ''s3://photo.png'' []),
                 ([1, 0], HTMLElement ''img'' ''s3-signed://doc.pdf'' []),
                 ([1, 1], HTMLElement ''img'' ''s3://photo.png'' []),
                 ([2], HTMLElement ''img'' ''https://example.org/x.png'' []),
                 ([3], HTMLElement ''img'' ''s3://photo.png'' [])]"
    by (simp add: querySelectorAll_def exampleTree_def targetElement_def)
  have parts:
    "js_split ''s3://photo.png'' ''//'' = [''s3:'', ''photo.png'']"
    "js_split ''s3-signed://doc.pdf'' ''//'' = [''s3-signed:'', ''doc.pdf'']"
    "js_split ''https://example.org/x.png'' ''//'' = [''https:'', ''example.org/x.png'']"
    by (simp_all add: js_split_def)
  note fact = resolveHtmlElement_files_each_element_once
                [OF refl imgs [symmetric], of exampleConfig usedResolver]
  from fact show ?thesis
    by (simp add: is_object_link_def is_sign_link_def link_key_def link_parts_def exampleConfig_def
          parts at_def s3LinkLeftPart_def s3LinkRightPart_def)
qed

text \<open>
  C8. The result of \<open>resolveHtmlElement\<close> does not depend on the maps the resolver held
  before the call, and so not on the tree of an earlier call either; and when the tree
  has no \<open>img\<close> element that passes the direct or the signed test, in particular when it
  has no \<open>img\<close> element at all, both maps of the result are empty.
\<close>

theorem resolveHtmlElement_starts_from_cleared_maps:
  "resolveHtmlElement cfg element r = resolveHtmlElement cfg element r'
   \<and> resolveHtmlElement cfg element (resolveHtmlElement cfg earlier r) = resolveHtmlElement cfg element r
   \<and> ((\<forall>e \<in> set (querySelectorAll element targetElement). \<not> is_object_link cfg e \<and> \<not> is_sign_link cfg e) \<longrightarrow>
        resolveHtmlElement cfg element r = \<lparr>objectKeys = [], signObjectKeys = []\<rparr>)"
proof -
  let ?imgs = "querySelectorAll element targetElement"
  have none: "fold (resolveImageElement cfg) xs r0 = r0"
    if "\<forall>e \<in> set xs. \<not> is_object_link cfg e \<and> \<not> is_sign_link cfg e" for xs r0
    using that by (induction xs arbitrary: r0) (simp_all add: resolveImageElement_cases)
  show ?thesis
    using none [of ?imgs] by (simp add: resolveHtmlElement_fold)
qed

text \<open>After a run over the example tree, a run over a tree whose only image is an
  ordinary link gives two empty maps.\<close>

theorem resolveHtmlElement_starts_from_cleared_maps_witness:
  "resolveHtmlElement exampleConfig plainTree (resolveHtmlElement exampleConfig exampleTree usedResolver)
     = \<lparr>objectKeys = [], signObjectKeys = []\<rparr>"
proof -
  have imgs: "querySelectorAll plainTree targetElement
                = [([1], HTMLElement ''img'' ''https://example.org/x.png'' [])]"
    by (simp add: querySelectorAll_def plainTree_def targetElement_def)
  have parts: "js_split ''https://example.org/x.png'' ''//'' = [''https:'', ''example.org/x.png'']"
    by (simp add: js_split_def)
  have unrelated:
    "\<forall>e \<in> set (querySelectorAll plainTree targetElement).
       \<not> is_object_link exampleConfig e \<and> \<not> is_sign_link exampleConfig e"
    by (simp add: imgs is_object_link_def is_sign_link_def link_parts_def exampleConfig_def parts
          at_def s3LinkLeftPart_def)
  note fact = resolveHtmlElement_starts_from_cleared_maps
                [of exampleConfig plainTree "resolveHtmlElement exampleConfig exampleTree usedResolver"
                    usedResolver exampleTree]
  from fact unrelated show ?thesis
    by blast
qed

text \<open>
  C6. An \<open>img\<close> whose \<open>src\<close> is exactly the direct marker splits into a single part, and
  that part passes the test on the first part: the callback does not look at the number
  of parts, reads the missing second part, \<open>undefined\<close>, and files the element in the
  direct map under it. This is so for every marker that does not contain the splitter
  (\<open>resolveImageElement_marker_only\<close>); a single part other than the two markers is
  ignored (\<open>resolveImageElement_single_part\<close>).
\<close>

theorem resolveHtmlElement_marker_only_reference:
  "length (js_split ''s3:'' (S3_LINK_SPLITTER exampleConfig)) < 2
   \<and> objectKeys (resolveHtmlElement exampleConfig markerOnlyTree \<lparr>objectKeys = [], signObjectKeys = []\<rparr>)
       = [(None, [([0], HTMLElement ''img'' ''s3:'' [])])]"
  by (simp add: resolveHtmlElement_def querySelectorAll_def markerOnlyTree_def targetElement_def
        clearObjectKeys_def clearSignObjectKeys_def resolveImageElement_def js_split_def
        exampleConfig_def at_def s3LinkLeftPart_def s3LinkRightPart_def addObjectKey_def
        append_element_def)

end
